theory Spec2Isabelle
  imports Main
begin

section \<open>Errors, tensors and the component distributions\<close>

text \<open>
  The module \<^verbatim>\<open>distributions/factorised.py\<close> composes component distributions
  (``factors'') into one distribution over the concatenation of their event vectors.
  Exceptions of the Python code are values of the type \<open>error\<close>; a computation that
  may raise returns \<open>error + 'a\<close>, with \<open>Inl\<close> for the exception.
\<close>

datatype error = IndexError | RuntimeError | NotImplementedError | ValueError

text \<open>
  A tensor is either zero-dimensional (\<open>Scalar\<close>) or has a trailing axis. In
  \<open>Tensor l w rs\<close> the list \<open>l\<close> holds the sizes of the leading axes, \<open>w\<close> is the
  size of the trailing axis, and \<open>rs\<close> lists the vectors along the trailing axis, one
  for every index of the leading axes in row-major order. The element type is a parameter.
\<close>

datatype 'a tensor = Scalar 'a | Tensor "nat list" nat "'a list list"

fun shape :: "'a tensor \<Rightarrow> nat list" where
  "shape (Scalar x) = []"
| "shape (Tensor l w rs) = l @ [w]"

fun wf_tensor :: "'a tensor \<Rightarrow> bool" where
  "wf_tensor (Scalar x) = True"
| "wf_tensor (Tensor l w rs) = (length rs = prod_list l \<and> list_all (\<lambda>r. length r = w) rs)"

text \<open>
  \<^verbatim>\<open>value[..., :n]\<close> and \<^verbatim>\<open>value[..., n:]\<close> for \<open>n \<ge> 0\<close>: a slice
  of the trailing axis, clamped to the axis as Python slices are. A zero-dimensional
  tensor has no axis to slice and raises IndexError.
\<close>

fun slice_to :: "nat \<Rightarrow> 'a tensor \<Rightarrow> error + 'a tensor" where
  "slice_to n (Scalar x) = Inl IndexError"
| "slice_to n (Tensor l w rs) = Inr (Tensor l (min n w) (map (take n) rs))"

fun slice_from :: "nat \<Rightarrow> 'a tensor \<Rightarrow> error + 'a tensor" where
  "slice_from n (Scalar x) = Inl IndexError"
| "slice_from n (Tensor l w rs) = Inr (Tensor l (w - n) (map (drop n) rs))"

text \<open>
  A component distribution is an external collaborator; the record holds what this module
  reads from it. Its support is a constraint object, represented by its \<^verbatim>\<open>check\<close>
  method, whose result has a type \<open>'b\<close> of its own (a boolean tensor in the library).
  Drawing a sample reads and advances the state \<open>'s\<close> of the random number generator.
  The log-density has values in a type \<open>'r\<close>.
\<close>

type_synonym ('a, 'b) constraint = "'a tensor \<Rightarrow> error + 'b"

record ('a, 'r, 'b, 's) distribution =
  d_batch_shape :: "nat list"
  d_event_shape :: "nat list"
  d_support :: "('a, 'b) constraint"
  d_rsample :: "nat list \<Rightarrow> 's \<Rightarrow> (error + 'a tensor) \<times> 's"
  d_log_prob :: "'a tensor \<Rightarrow> error + 'r"

section \<open>The class Factorised\<close>

record ('a, 'r, 'b, 's) Factorised =
  factors :: "('a, 'r, 'b, 's) distribution list"
  batch_shape :: "nat list"
  event_shape :: "nat list"
  p_ndims :: "nat list"
  validate_args :: "bool option"

text \<open>
  \<^verbatim>\<open>sum(factor.event_shape[0] for factor in self.factors)\<close>: the generator is
  consumed from the left, starting from 0; reading entry 0 of an empty event shape raises
  IndexError.
\<close>

fun sum_event_shape0 :: "nat \<Rightarrow> ('a, 'r, 'b, 's) distribution list \<Rightarrow> error + nat" where
  "sum_event_shape0 acc [] = Inr acc"
| "sum_event_shape0 acc (f # fs) =
     (case d_event_shape f of
        [] \<Rightarrow> Inl IndexError
      | n # _ \<Rightarrow> sum_event_shape0 (acc + n) fs)"

text \<open>
  \<^verbatim>\<open>Factorised.__init__\<close>. The field \<open>p_ndims\<close> is the attribute
  \<^verbatim>\<open>_ndims\<close>. The field \<open>validate_args\<close> is the attribute
  \<^verbatim>\<open>_validate_args\<close> of the instance: the base constructor sets it only when the
  argument is not \<^verbatim>\<open>None\<close>, so \<open>None\<close> stands for an instance without the
  attribute, for which a read gives the class-wide default. The class has no argument
  constraints, so the base constructor checks nothing.
\<close>

definition Factorised_init ::
  "('a, 'r, 'b, 's) distribution list \<Rightarrow> bool option \<Rightarrow> error + ('a, 'r, 'b, 's) Factorised" where
  "Factorised_init fs va =
     (case fs of
        [] \<Rightarrow> Inl IndexError
      | f0 # _ \<Rightarrow>
          (case sum_event_shape0 0 fs of
             Inl e \<Rightarrow> Inl e
           | Inr tw \<Rightarrow>
               Inr \<lparr>factors = fs,
                    batch_shape = d_batch_shape f0,
                    event_shape = [tw],
                    p_ndims = map (\<lambda>f. if length (d_event_shape f) > 0
                                        then d_event_shape f ! 0 else 1) fs,
                    validate_args = va\<rparr>))"

text \<open>
  Subscripting a Python list with an integer, \<^verbatim>\<open>xs[i]\<close>: entries are numbered
  from 0, the indices \<open>-1\<close> down to \<open>- length xs\<close> number them from the back, and
  any other index raises IndexError.
\<close>

definition getitem :: "'x list \<Rightarrow> int \<Rightarrow> error + 'x" where
  "getitem xs i =
     (if 0 \<le> i \<and> i < int (length xs) then Inr (xs ! nat i)
      else if i < 0 \<and> - int (length xs) \<le> i then Inr (xs ! nat (int (length xs) + i))
      else Inl IndexError)"

text \<open>\<^verbatim>\<open>[self.factors[i] for i in factor_indices]\<close>, built from the left.\<close>

fun select_factors :: "'x list \<Rightarrow> int list \<Rightarrow> error + 'x list" where
  "select_factors xs [] = Inr []"
| "select_factors xs (i # is) =
     (case getitem xs i of
        Inl e \<Rightarrow> Inl e
      | Inr x \<Rightarrow> (case select_factors xs is of Inl e \<Rightarrow> Inl e | Inr ys \<Rightarrow> Inr (x # ys)))"

text \<open>
  A read of \<^verbatim>\<open>self._validate_args\<close>: the attribute of the instance when it has
  one, else the attribute of the class, \<open>dva\<close>.
\<close>

definition read_validate_args :: "bool \<Rightarrow> ('a, 'r, 'b, 's) Factorised \<Rightarrow> bool" where
  "read_validate_args dva self = (case validate_args self of None \<Rightarrow> dva | Some b \<Rightarrow> b)"

text \<open>
  \<^verbatim>\<open>Factorised.marginal\<close>, as the outcome of the constructor that the method calls.
  The new instance is given the flag that the read returns, so it always has the
  attribute.
\<close>

definition marginal ::
  "bool \<Rightarrow> ('a, 'r, 'b, 's) Factorised \<Rightarrow> int list \<Rightarrow> error + ('a, 'r, 'b, 's) Factorised" where
  "marginal dva self factor_indices =
     (case select_factors (factors self) factor_indices of
        Inl e \<Rightarrow> Inl e
      | Inr fs \<Rightarrow> Factorised_init fs (Some (read_validate_args dva self)))"

text \<open>
  Instances live in a store, a list of the instances created so far; the address of an
  instance is its position. The expression \<^verbatim>\<open>Factorised(factors, validate_args)\<close>
  adds an instance at the next address when the constructor returns and leaves the store
  as it is when the constructor raises. A call \<^verbatim>\<open>self.marginal(factor_indices)\<close>
  reads the instance at the address \<open>self\<close>; the method assigns to no attribute of it.
  An address outside the store is not a reference that a program holds: the model answers
  it with RuntimeError.
\<close>

type_synonym ('a, 'r, 'b, 's) store = "('a, 'r, 'b, 's) Factorised list"

definition new_Factorised ::
  "('a, 'r, 'b, 's) store \<Rightarrow> ('a, 'r, 'b, 's) distribution list \<Rightarrow> bool option \<Rightarrow>
   (error + nat) \<times> ('a, 'r, 'b, 's) store" where
  "new_Factorised h fs va =
     (case Factorised_init fs va of
        Inl e \<Rightarrow> (Inl e, h)
      | Inr d \<Rightarrow> (Inr (length h), h @ [d]))"

definition marginal_call ::
  "bool \<Rightarrow> ('a, 'r, 'b, 's) store \<Rightarrow> nat \<Rightarrow> int list \<Rightarrow>
   (error + nat) \<times> ('a, 'r, 'b, 's) store" where
  "marginal_call dva h self factor_indices =
     (if self < length h then
        (case select_factors (factors (h ! self)) factor_indices of
           Inl e \<Rightarrow> (Inl e, h)
         | Inr fs \<Rightarrow> new_Factorised h fs (Some (read_validate_args dva (h ! self))))
      else (Inl RuntimeError, h))"

section \<open>Partitioning the trailing axis\<close>

text \<open>
  \<^verbatim>\<open>_iterate_parts\<close> is a generator. Its state is the program point it is
  suspended at with the values of its variables: \<open>AtLoop v ns\<close> stands at the head of
  the \<^verbatim>\<open>for\<close> loop with the widths \<open>ns\<close> still to come (this is also the
  state before the first request), \<open>AtYield v n ns\<close> is suspended at the
  \<^verbatim>\<open>yield\<close> of the slice of width \<open>n\<close>, before \<open>v\<close> is advanced.
\<close>

datatype 'a parts_gen = AtLoop "'a tensor" "nat list" | AtYield "'a tensor" nat "nat list"

definition iterate_parts :: "'a tensor \<Rightarrow> nat list \<Rightarrow> 'a parts_gen" where
  "iterate_parts v ndims = AtLoop v ndims"

text \<open>
  One request to the generator (\<^verbatim>\<open>next\<close>): \<open>Inr None\<close> is exhaustion,
  \<open>Inr (Some (part, g))\<close> a yielded slice with the suspended generator, \<open>Inl e\<close> an
  exception raised inside the generator.
\<close>

fun loop_head :: "'a tensor \<Rightarrow> nat list \<Rightarrow> error + ('a tensor \<times> 'a parts_gen) option" where
  "loop_head v [] = Inr None"
| "loop_head v (n # ns) =
     (case slice_to n v of
        Inl e \<Rightarrow> Inl e
      | Inr part \<Rightarrow> Inr (Some (part, AtYield v n ns)))"

fun next_part :: "'a parts_gen \<Rightarrow> error + ('a tensor \<times> 'a parts_gen) option" where
  "next_part (AtLoop v ns) = loop_head v ns"
| "next_part (AtYield v n ns) =
     (case slice_from n v of
        Inl e \<Rightarrow> Inl e
      | Inr v' \<Rightarrow> loop_head v' ns)"

fun gen_size :: "'a parts_gen \<Rightarrow> nat" where
  "gen_size (AtLoop v ns) = 2 * length ns"
| "gen_size (AtYield v n ns) = 2 * length ns + 1"

text \<open>\<^verbatim>\<open>list(g)\<close>: the generator run to exhaustion, its slices collected.\<close>

function drain :: "'a parts_gen \<Rightarrow> error + 'a tensor list" where
  "drain g =
     (case next_part g of
        Inl e \<Rightarrow> Inl e
      | Inr None \<Rightarrow> Inr []
      | Inr (Some (part, g')) \<Rightarrow>
          (case drain g' of Inl e \<Rightarrow> Inl e | Inr ps \<Rightarrow> Inr (part # ps)))"
  by pat_completeness auto
termination
proof (relation "measure gen_size")
  show "wf (measure gen_size)" by simp
next
  fix g :: "'a parts_gen" and x y part g'
  assume "next_part g = Inr x" and "x = Some y" and "(part, g') = y"
  then have n: "next_part g = Inr (Some (part, g'))" by simp
  have "gen_size g' < gen_size g"
  proof (cases g)
    case (AtLoop v ns)
    with n show ?thesis
      by (cases ns) (auto split: sum.splits)
  next
    case (AtYield v n ns)
    with n show ?thesis
      by (cases ns) (auto split: sum.splits)
  qed
  then show "(g', g) \<in> measure gen_size" by simp
qed

declare drain.simps [simp del]

text \<open>\<^verbatim>\<open>Factorised.partition_dimensions\<close>.\<close>

definition partition_dimensions :: "('a, 'r, 'b, 's) Factorised \<Rightarrow> 'a tensor \<Rightarrow> 'a parts_gen" where
  "partition_dimensions self data = iterate_parts data (p_ndims self)"



section \<open>The support constraint\<close>

record ('a, 'b) FactorisedSupport =
  supports :: "('a, 'b) constraint list"
  ndims :: "nat list"

text \<open>
  \<^verbatim>\<open>_FactorisedSupport.check\<close>: \<^verbatim>\<open>all\<close> over
  \<^verbatim>\<open>zip(self.supports, _iterate_parts(value, self.ndims))\<close>. \<^verbatim>\<open>all\<close> tests
  the truth value of every item and returns \<^verbatim>\<open>False\<close> at the first item that is
  not true, without asking for the next one. The truth test of an item is the parameter
  \<open>truth\<close>; it may raise.
\<close>

fun all_check ::
  "('b \<Rightarrow> error + bool) \<Rightarrow> ('a, 'b) constraint list \<Rightarrow> 'a parts_gen \<Rightarrow> error + bool" where
  "all_check truth [] g = Inr True"
| "all_check truth (c # cs) g =
     (case next_part g of
        Inl e \<Rightarrow> Inl e
      | Inr None \<Rightarrow> Inr True
      | Inr (Some (part, g')) \<Rightarrow>
          (case c part of
             Inl e \<Rightarrow> Inl e
           | Inr b \<Rightarrow>
               (case truth b of
                  Inl e \<Rightarrow> Inl e
                | Inr t \<Rightarrow> if t then all_check truth cs g' else Inr False)))"

definition check ::
  "('b \<Rightarrow> error + bool) \<Rightarrow> ('a, 'b) FactorisedSupport \<Rightarrow> 'a tensor \<Rightarrow> error + bool" where
  "check truth self v = all_check truth (supports self) (iterate_parts v (ndims self))"

text \<open>The property \<^verbatim>\<open>Factorised.support\<close>.\<close>

definition support :: "('a, 'r, 'b, 's) Factorised \<Rightarrow> ('a, 'b) FactorisedSupport" where
  "support self = \<lparr>supports = map d_support (factors self), ndims = p_ndims self\<rparr>"

section \<open>Sampling\<close>

text \<open>
  \<^verbatim>\<open>torch.cat(tensors, dim=-1)\<close> as the library documents it: the sequence is not
  empty, no tensor is zero-dimensional, and all tensors agree on every axis but the
  trailing one; anything else raises RuntimeError.
\<close>

fun cat2 :: "'a tensor \<Rightarrow> 'a tensor \<Rightarrow> error + 'a tensor" where
  "cat2 (Tensor l w rs) (Tensor l' w' rs') =
     (if l = l' then Inr (Tensor l (w + w') (map2 (@) rs rs')) else Inl RuntimeError)"
| "cat2 (Scalar x) t = Inl RuntimeError"
| "cat2 t (Scalar x) = Inl RuntimeError"

fun cat_onto :: "'a tensor \<Rightarrow> 'a tensor list \<Rightarrow> error + 'a tensor" where
  "cat_onto t [] = Inr t"
| "cat_onto t (u # us) =
     (case cat2 t u of Inl e \<Rightarrow> Inl e | Inr t' \<Rightarrow> cat_onto t' us)"

fun cat :: "'a tensor list \<Rightarrow> error + 'a tensor" where
  "cat [] = Inl RuntimeError"
| "cat (Scalar x # us) = Inl RuntimeError"
| "cat (Tensor l w rs # us) = cat_onto (Tensor l w rs) us"

text \<open>
  \<^verbatim>\<open>[factor.rsample(sample_shape) for factor in self.factors]\<close>: one draw per
  factor, from the left, each draw starting from the generator state the previous one
  left.
\<close>

fun rsample_factors ::
  "nat list \<Rightarrow> ('a, 'r, 'b, 's) distribution list \<Rightarrow> 's \<Rightarrow> (error + 'a tensor list) \<times> 's" where
  "rsample_factors sample_shape [] s = (Inr [], s)"
| "rsample_factors sample_shape (f # fs) s =
     (case d_rsample f sample_shape s of
        (Inl e, s') \<Rightarrow> (Inl e, s')
      | (Inr t, s') \<Rightarrow>
          (case rsample_factors sample_shape fs s' of
             (Inl e, s'') \<Rightarrow> (Inl e, s'')
           | (Inr ts, s'') \<Rightarrow> (Inr (t # ts), s'')))"

text \<open>\<^verbatim>\<open>Factorised.rsample\<close>.\<close>

definition rsample ::
  "('a, 'r, 'b, 's) Factorised \<Rightarrow> nat list \<Rightarrow> 's \<Rightarrow> (error + 'a tensor) \<times> 's" where
  "rsample self sample_shape s =
     (case rsample_factors sample_shape (factors self) s of
        (Inl e, s') \<Rightarrow> (Inl e, s')
      | (Inr ts, s') \<Rightarrow> (cat ts, s'))"

section \<open>The divergence rule\<close>



section \<open>The layout of the combined event vector\<close>

text \<open>
  The definitions of this section and the helpers \<open>sum_from\<close>, \<open>all_from\<close> and
  \<open>tested\<close> translate no function of the module: they state the layout and the
  combination of results that the module's functions are compared with.

  The slice of the trailing axis that starts at offset \<open>off\<close> and has width \<open>n\<close>
  (\<^verbatim>\<open>v[..., off:off+n]\<close>), and the slice that belongs to the factor at position
  \<open>i\<close> when the widths are \<open>ns\<close>: it starts where the widths before \<open>i\<close> end. A
  zero-dimensional tensor has no slices.
\<close>

fun trailing_width :: "'a tensor \<Rightarrow> nat option" where
  "trailing_width (Scalar x) = None"
| "trailing_width (Tensor l w rs) = Some w"

fun contiguous_slice :: "nat \<Rightarrow> nat \<Rightarrow> 'a tensor \<Rightarrow> 'a tensor" where
  "contiguous_slice off n (Scalar x) = Scalar x"
| "contiguous_slice off n (Tensor l w rs) =
     Tensor l (min n (w - off)) (map (\<lambda>r. take n (drop off r)) rs)"

definition factor_slice :: "nat list \<Rightarrow> nat \<Rightarrow> 'a tensor \<Rightarrow> 'a tensor" where
  "factor_slice ns i v = contiguous_slice (sum_list (take i ns)) (ns ! i) v"

definition factor_slices :: "nat list \<Rightarrow> 'a tensor \<Rightarrow> 'a tensor list" where
  "factor_slices ns v = map (\<lambda>i. factor_slice ns i v) [0..<length ns]"


text \<open>
  The conjunction of a list of truth tests, taken from the left as \<^verbatim>\<open>all\<close> takes
  them: it is decided by the first test that fails or is false.
\<close>

fun all_from :: "(error + bool) list \<Rightarrow> error + bool" where
  "all_from [] = Inr True"
| "all_from (Inl e # xs) = Inl e"
| "all_from (Inr b # xs) = (if b then all_from xs else Inr False)"

text \<open>The truth test of the result \<open>x\<close> of a check that may itself have failed.\<close>

fun tested :: "('b \<Rightarrow> error + bool) \<Rightarrow> error + 'b \<Rightarrow> error + bool" where
  "tested truth (Inl e) = Inl e"
| "tested truth (Inr b) = truth b"

section \<open>Objects for evaluation\<close>

text \<open>
  Concrete factors in the shape of the demonstration at the end of the module (event
  widths 3 and 4, batch size 5), over integer entries. A factor \<open>demo_factor B E\<close> has
  batch shape \<open>B\<close> and event shape \<open>E\<close>; it rejects a value whose trailing axes are not
  \<open>E\<close>, its log-density is the sum of the entries, its support is the non-negative
  values, and a draw is the constant tensor of the generator state, which it advances by
  one. The stand-in dispatcher \<open>demo_kl\<close> has a rule exactly for pairs of equal event
  shape.
\<close>

definition full :: "nat list \<Rightarrow> 'a \<Rightarrow> 'a tensor" where
  "full sh x =
     (if sh = [] then Scalar x
      else Tensor (butlast sh) (last sh) (replicate (prod_list (butlast sh)) (replicate (last sh) x)))"

fun entries :: "'a tensor \<Rightarrow> 'a list" where
  "entries (Scalar x) = [x]"
| "entries (Tensor l w rs) = concat rs"

definition has_event_shape :: "nat list \<Rightarrow> 'a tensor \<Rightarrow> bool" where
  "has_event_shape E t =
     (length E \<le> length (shape t) \<and> drop (length (shape t) - length E) (shape t) = E)"

definition demo_factor :: "nat list \<Rightarrow> nat list \<Rightarrow> (int, int, bool, nat) distribution" where
  "demo_factor B E =
     \<lparr>d_batch_shape = B,
      d_event_shape = E,
      d_support = (\<lambda>t. if has_event_shape E t then Inr (list_all (\<lambda>x. 0 \<le> x) (entries t))
                         else Inl RuntimeError),
      d_rsample = (\<lambda>S s. (Inr (full (S @ B @ E) (int s)), Suc s)),
      d_log_prob = (\<lambda>t. if has_event_shape E t then Inr (sum_list (entries t))
                          else Inl RuntimeError)\<rparr>"


definition demo_factors :: "(int, int, bool, nat) distribution list" where
  "demo_factors = [demo_factor [5] [3], demo_factor [5] [4]]"

definition demo :: "(int, int, bool, nat) Factorised" where
  "demo = \<lparr>factors = demo_factors, batch_shape = [5], event_shape = [7], p_ndims = [3, 4],
           validate_args = None\<rparr>"

definition demo_value :: "int tensor" where
  "demo_value = Tensor [5] 7
     [[1, 2, 3, 4, 5, 6, 7],
      [7, 6, 5, 4, 3, 2, 1],
      [0, 0, 0, 0, 0, 0, 0],
      [1, 0, 1, 0, 1, 0, 1],
      [2, 2, 2, 1, 1, 1, 1]]"





definition demo_matrix :: "(int, int, bool, nat) Factorised" where
  "demo_matrix = \<lparr>factors = [demo_factor [] [2, 3]], batch_shape = [], event_shape = [2],
                  p_ndims = [2], validate_args = None\<rparr>"

definition demo_mixed :: "(int, int, bool, nat) Factorised" where
  "demo_mixed = \<lparr>factors = [demo_factor [5] [3], demo_factor [2] [4]], batch_shape = [5],
                 event_shape = [7], p_ndims = [3, 4], validate_args = None\<rparr>"

definition demo_marginal :: "(int, int, bool, nat) Factorised" where
  "demo_marginal =
     \<lparr>factors = [demo_factor [5] [4], demo_factor [5] [3], demo_factor [5] [4]],
      batch_shape = [5], event_shape = [11], p_ndims = [4, 3, 4], validate_args = Some True\<rparr>"

text \<open>
  Factors whose support check answers as the library's constraints do, with a boolean
  tensor that has one entry for every index of the leading axes of the value, and the
  truth test of a tensor as the library defines it: a tensor with exactly one element has
  the truth value of that element, and the test raises RuntimeError for any other tensor.
\<close>

fun tensor_bool :: "bool tensor \<Rightarrow> error + bool" where
  "tensor_bool (Scalar b) = Inr b"
| "tensor_bool (Tensor l w rs) = (case concat rs of [b] \<Rightarrow> Inr b | _ \<Rightarrow> Inl RuntimeError)"

definition unflatten :: "nat list \<Rightarrow> 'a list \<Rightarrow> error + 'a tensor" where
  "unflatten l xs =
     (if l = [] then (case xs of [x] \<Rightarrow> Inr (Scalar x) | _ \<Rightarrow> Inl RuntimeError)
      else Inr (Tensor (butlast l) (last l)
                  (map (\<lambda>k. take (last l) (drop (k * last l) xs)) [0..<prod_list (butlast l)])))"

definition batched_factor :: "nat list \<Rightarrow> nat \<Rightarrow> (int, int, bool tensor, nat) distribution" where
  "batched_factor B n =
     \<lparr>d_batch_shape = B,
      d_event_shape = [n],
      d_support = (\<lambda>t. case t of
                          Scalar x \<Rightarrow> Inl RuntimeError
                        | Tensor l w rs \<Rightarrow>
                            if w = n then unflatten l (map (list_all (\<lambda>x. 0 \<le> x)) rs)
                            else Inl RuntimeError),
      d_rsample = d_rsample (demo_factor B [n]),
      d_log_prob = d_log_prob (demo_factor B [n])\<rparr>"

definition demo_batched :: "(int, int, bool tensor, nat) Factorised" where
  "demo_batched = \<lparr>factors = [batched_factor [5] 3, batched_factor [5] 4], batch_shape = [5],
                   event_shape = [7], p_ndims = [3, 4], validate_args = None\<rparr>"

section \<open>Construction\<close>

lemma sum_event_shape0_Inr:
  "sum_event_shape0 acc fs = Inr tw \<Longrightarrow>
     list_all (\<lambda>f. d_event_shape f \<noteq> []) fs \<and>
     tw = acc + sum_list (map (\<lambda>f. d_event_shape f ! 0) fs)"
proof (induction fs arbitrary: acc)
  case Nil
  then show ?case by simp
next
  case (Cons f fs)
  show ?case
  proof (cases "d_event_shape f")
    case Nil
    with Cons.prems show ?thesis by simp
  next
    case (Cons n ns)
    with Cons.prems have "sum_event_shape0 (acc + n) fs = Inr tw" by simp
    from Cons.IH [OF this] Cons show ?thesis by (simp add: add.assoc)
  qed
qed

lemma sum_event_shape0_nonempty:
  "list_all (\<lambda>f. d_event_shape f \<noteq> []) fs \<Longrightarrow>
     sum_event_shape0 acc fs = Inr (acc + sum_list (map (\<lambda>f. d_event_shape f ! 0) fs))"
proof (induction fs arbitrary: acc)
  case Nil
  then show ?case by simp
next
  case (Cons f fs)
  then show ?case
    by (cases "d_event_shape f") (auto simp: add.assoc)
qed

lemma sum_event_shape0_scalar:
  "f \<in> set fs \<Longrightarrow> d_event_shape f = [] \<Longrightarrow> sum_event_shape0 acc fs = Inl IndexError"
proof (induction fs arbitrary: acc)
  case Nil
  then show ?case by simp
next
  case (Cons g fs)
  then show ?case
    by (cases "d_event_shape g") auto
qed

text \<open>
  What an accepted construction looks like: the factor list is not empty, no factor has an
  empty event shape, and every field is determined by the factors.
\<close>

lemma Factorised_init_Inr:
  assumes "Factorised_init fs va = Inr d"
  shows "fs \<noteq> []"
    and "list_all (\<lambda>f. d_event_shape f \<noteq> []) fs"
    and "factors d = fs"
    and "batch_shape d = d_batch_shape (hd fs)"
    and "event_shape d = [sum_list (map (\<lambda>f. d_event_shape f ! 0) fs)]"
    and "p_ndims d = map (\<lambda>f. d_event_shape f ! 0) fs"
    and "validate_args d = va"
proof -
  from assms obtain f0 fs' where fs: "fs = f0 # fs'"
    by (cases fs) (auto simp: Factorised_init_def)
  from assms fs obtain tw where tot: "sum_event_shape0 0 fs = Inr tw"
    by (auto simp: Factorised_init_def split: sum.splits)
  note ne = sum_event_shape0_Inr [OF tot]
  from assms fs tot have d: "d = \<lparr>factors = fs, batch_shape = d_batch_shape f0,
      event_shape = [tw],
      p_ndims = map (\<lambda>f. if length (d_event_shape f) > 0 then d_event_shape f ! 0 else 1) fs,
      validate_args = va\<rparr>"
    by (simp add: Factorised_init_def)
  show "fs \<noteq> []" using fs by simp
  show "list_all (\<lambda>f. d_event_shape f \<noteq> []) fs" using ne by simp
  show "factors d = fs" using d by simp
  show "batch_shape d = d_batch_shape (hd fs)" using d fs by simp
  show "event_shape d = [sum_list (map (\<lambda>f. d_event_shape f ! 0) fs)]" using d ne by simp
  show "p_ndims d = map (\<lambda>f. d_event_shape f ! 0) fs"
    using d ne by (simp add: list_all_iff)
  show "validate_args d = va" using d by simp
qed

text \<open>A factor with an empty event shape makes the constructor raise IndexError.\<close>

lemma Factorised_init_scalar_factor:
  assumes "f \<in> set fs" and "d_event_shape f = []"
  shows "Factorised_init fs va = Inl IndexError"
proof (cases fs)
  case Nil
  then show ?thesis by (simp add: Factorised_init_def)
next
  case (Cons g gs)
  have "sum_event_shape0 0 fs = Inl IndexError"
    using assms by (rule sum_event_shape0_scalar)
  with Cons show ?thesis by (simp add: Factorised_init_def)
qed

text \<open>
  Claim C10. The constructor applied to an empty factor sequence raises IndexError (at
  \<^verbatim>\<open>factors[0].batch_shape\<close>), and so does \<^verbatim>\<open>marginal\<close> applied to an empty
  index sequence, for every receiver.
\<close>

theorem Factorised_init_empty_fails:
  "Factorised_init [] va = Inl IndexError \<and> marginal dva d [] = Inl IndexError"
  by (simp add: Factorised_init_def marginal_def)

lemma demo_init: "Factorised_init demo_factors None = Inr demo"
  by (simp add: Factorised_init_def demo_factors_def demo_def demo_factor_def)

text \<open>
  Claim C1. The code does not do what the claim says for a scalar-valued factor. The
  constructor's width list gives such a factor the width 1 (the guarded read of entry 0 of
  the event shape), but the sum that gives the event shape reads entry 0 without the
  guard: for the single factor with batch shape \<open>(5)\<close> and an empty event shape the width
  list would be \<open>[1]\<close>, and the constructor raises IndexError before it caches anything.
\<close>

theorem scalar_factor_rejected:
  "d_event_shape (demo_factor [5] []) = [] \<and>
   map (\<lambda>f. if length (d_event_shape f) > 0 then d_event_shape f ! 0 else 1)
     [demo_factor [5] []] = [1] \<and>
   sum_event_shape0 0 [demo_factor [5] []] = Inl IndexError \<and>
   Factorised_init [demo_factor [5] []] None = Inl IndexError"
  by (simp add: Factorised_init_def demo_factor_def)

section \<open>The generator and its consumers\<close>

lemma factor_slices_Nil: "factor_slices [] v = []"
  by (simp add: factor_slices_def)

lemma factor_slices_Cons:
  "factor_slices (n # ns) (Tensor l w rs) =
     Tensor l (min n w) (map (take n) rs) # factor_slices ns (Tensor l (w - n) (map (drop n) rs))"
  unfolding factor_slices_def
  by (simp add: map_upt_Suc factor_slice_def add.commute del: upt_Suc)

lemma length_factor_slices: "length (factor_slices ns v) = length ns"
  by (simp add: factor_slices_def)

lemma nth_factor_slices: "i < length ns \<Longrightarrow> factor_slices ns v ! i = factor_slice ns i v"
  by (simp add: factor_slices_def)

text \<open>
  A generator suspended at its \<^verbatim>\<open>yield\<close> behaves, for each of its consumers, as
  one that stands at the loop head with the value already advanced.
\<close>

lemma drain_AtYield:
  "drain (AtYield (Tensor l w rs) n ns) = drain (AtLoop (Tensor l (w - n) (map (drop n) rs)) ns)"
  by (subst drain.simps, subst (2) drain.simps) simp


lemma all_check_AtYield:
  "all_check truth cs (AtYield (Tensor l w rs) n ns) =
   all_check truth cs (AtLoop (Tensor l (w - n) (map (drop n) rs)) ns)"
  by (cases cs) simp_all

text \<open>Run to exhaustion, the generator yields the slices of the layout, in order.\<close>

lemma drain_AtLoop:
  "drain (AtLoop (Tensor l w rs) ns) = Inr (factor_slices ns (Tensor l w rs))"
proof (induction ns arbitrary: w rs)
  case Nil
  show ?case by (subst drain.simps) (simp add: factor_slices_Nil)
next
  case (Cons n ns)
  show ?case
    by (subst drain.simps) (simp add: factor_slices_Cons drain_AtYield Cons.IH)
qed


lemma all_check_AtLoop:
  "length cs = length ns \<Longrightarrow>
   all_check truth cs (AtLoop (Tensor l w rs) ns) =
   all_from (map2 (\<lambda>c part. tested truth (c part)) cs (factor_slices ns (Tensor l w rs)))"
proof (induction cs arbitrary: ns w rs)
  case Nil
  then show ?case by simp
next
  case (Cons c cs)
  then obtain n ns' where ns: "ns = n # ns'" by (cases ns) auto
  with Cons.prems have len: "length cs = length ns'" by simp
  show ?case
  proof (cases "c (Tensor l (min n w) (map (take n) rs))")
    case (Inl e)
    then show ?thesis unfolding ns by (simp add: factor_slices_Cons)
  next
    case (Inr b)
    then show ?thesis
      unfolding ns
      by (cases "truth b")
         (simp_all add: factor_slices_Cons all_check_AtYield Cons.IH [OF len])
  qed
qed

text \<open>
  Claims C3 and C4 rest on the layout: with the widths \<open>ns\<close>, position \<open>i\<close> owns the
  slice that starts at the sum of the widths before it.
\<close>

lemma sum_take_nth_le:
  "i < length ns \<Longrightarrow> sum_list (take i ns) + ns ! i \<le> sum_list (ns :: nat list)"
proof -
  assume i: "i < length ns"
  then have "sum_list (take (Suc i) ns) = sum_list (take i ns) + ns ! i"
    by (simp add: take_Suc_conv_app_nth)
  moreover have "sum_list (take (Suc i) ns) \<le> sum_list ns"
  proof -
    have "sum_list ns = sum_list (take (Suc i) ns) + sum_list (drop (Suc i) ns)"
      by (metis append_take_drop_id sum_list_append)
    then show ?thesis by simp
  qed
  ultimately show ?thesis by simp
qed

lemma factor_slice_width:
  assumes "trailing_width v = Some w" and "sum_list ns \<le> w" and "i < length ns"
  shows "trailing_width (factor_slice ns i v) = Some (ns ! i)"
proof -
  from assms(1) obtain l rs where v: "v = Tensor l w rs" by (cases v) auto
  from sum_take_nth_le [OF assms(3)] assms(2)
  have "ns ! i \<le> w - sum_list (take i ns)" by simp
  then show ?thesis by (simp add: v factor_slice_def)
qed


lemma map2_factor_slices:
  assumes "length fs = length ns"
  shows "map2 f fs (factor_slices ns v) = map (\<lambda>i. f (fs ! i) (factor_slice ns i v)) [0..<length fs]"
  using assms by (intro nth_equalityI) (simp_all add: length_factor_slices nth_factor_slices)

lemma all_from_True: "all_from xs = Inr True \<longleftrightarrow> (\<forall>x\<in>set xs. x = Inr True)"
proof (induction xs)
  case Nil
  show ?case by simp
next
  case (Cons x xs)
  show ?case
  proof (cases x)
    case (Inl e)
    then show ?thesis by simp
  next
    case (Inr b)
    with Cons show ?thesis by (cases b) simp_all
  qed
qed

lemma tested_True: "tested truth x = Inr True \<longleftrightarrow> (\<exists>b. x = Inr b \<and> truth b = Inr True)"
  by (cases x) simp_all


lemma check_layout:
  assumes init: "Factorised_init fs va = Inr d" and v: "trailing_width v = Some w"
  shows "check truth (support d) v =
     all_from (map (\<lambda>i. tested truth (d_support (fs ! i) (factor_slice (p_ndims d) i v)))
                 [0..<length fs])"
proof -
  note r = Factorised_init_Inr [OF init]
  from v obtain l rs where t: "v = Tensor l w rs" by (cases v) auto
  have len: "length (map d_support fs) = length (p_ndims d)" using r(6) by simp
  have "check truth (support d) v =
     all_from (map (\<lambda>i. tested truth ((map d_support fs ! i) (factor_slice (p_ndims d) i v)))
                 [0..<length (map d_support fs)])"
    unfolding check_def support_def iterate_parts_def r(3) t
    by (simp only: FactorisedSupport.simps all_check_AtLoop [OF len] map2_factor_slices [OF len])
  also have "\<dots> = all_from (map (\<lambda>i. tested truth (d_support (fs ! i) (factor_slice (p_ndims d) i v)))
                 [0..<length fs])"
    by (rule arg_cong [where f = all_from]) simp
  finally show ?thesis .
qed


text \<open>
  When the check of the support returns true: exactly when every factor's own check,
  applied to that factor's slice of the layout, returns a result whose truth test is
  true. The truth test is the parameter \<open>truth\<close>.
\<close>

lemma check_True_iff:
  assumes init: "Factorised_init fs va = Inr d"
    and v: "trailing_width v = Some (sum_list (p_ndims d))"
  shows "check truth (support d) v = Inr True \<longleftrightarrow>
         (\<forall>i<length fs. \<exists>b. d_support (fs ! i) (factor_slice (p_ndims d) i v) = Inr b \<and>
                             truth b = Inr True)"
  unfolding check_layout [OF init v] all_from_True
  by (auto simp: tested_True)

lemma demo_value_width: "trailing_width demo_value = Some (sum_list (p_ndims demo))"
  by (simp add: demo_value_def demo_def)

lemma demo_slices:
  "factor_slice (p_ndims demo) 0 demo_value =
     Tensor [5] 3 [[1, 2, 3], [7, 6, 5], [0, 0, 0], [1, 0, 1], [2, 2, 2]]"
  "factor_slice (p_ndims demo) (Suc 0) demo_value =
     Tensor [5] 4 [[4, 5, 6, 7], [4, 3, 2, 1], [0, 0, 0, 0], [0, 1, 0, 1], [1, 1, 1, 1]]"
  by (simp_all add: factor_slice_def demo_value_def demo_def)

lemma demo_factors_nth:
  "demo_factors ! 0 = demo_factor [5] [3]" "demo_factors ! Suc 0 = demo_factor [5] [4]"
  "length demo_factors = 2"
  by (simp_all add: demo_factors_def)

lemma less_two_cases: "i < (2::nat) \<Longrightarrow> i = 0 \<or> i = Suc 0"
  by arith


text \<open>
  The check fails as soon as the truth test of a factor's result does; the first factor's
  result is always tested.
\<close>

lemma check_first_truth_raises:
  assumes init: "Factorised_init fs va = Inr d"
    and v: "trailing_width v = Some w"
    and b: "d_support (fs ! 0) (factor_slice (p_ndims d) 0 v) = Inr b"
    and e: "truth b = Inl e"
  shows "check truth (support d) v = Inl e"
proof -
  note r = Factorised_init_Inr [OF init]
  from r(1) have "[0..<length fs] = 0 # [Suc 0..<length fs]"
    by (simp add: upt_conv_Cons)
  then show ?thesis
    unfolding check_layout [OF init v] using b e by simp
qed

lemma demo_batched_init:
  "Factorised_init [batched_factor [5] 3, batched_factor [5] 4] None = Inr demo_batched"
  by (simp add: Factorised_init_def demo_batched_def batched_factor_def)

text \<open>
  Claim C4. The code does not do what the claim says when the factors' checks answer
  with a boolean tensor over a batch. For two factors of batch size 5 and a value of shape
  \<open>(5, 7)\<close> that lies in the support, each factor's check passes on its slice (its
  result is five times true), and the check of the support raises RuntimeError, from the
  truth test of the first result, where the claim has it return true.
\<close>

theorem check_raises_on_batched_results:
  "Factorised_init [batched_factor [5] 3, batched_factor [5] 4] None = Inr demo_batched \<and>
   trailing_width demo_value = Some (sum_list (p_ndims demo_batched)) \<and>
   d_support (factors demo_batched ! 0) (factor_slice (p_ndims demo_batched) 0 demo_value) =
     Inr (Tensor [] 5 [[True, True, True, True, True]]) \<and>
   d_support (factors demo_batched ! Suc 0)
       (factor_slice (p_ndims demo_batched) (Suc 0) demo_value) =
     Inr (Tensor [] 5 [[True, True, True, True, True]]) \<and>
   tensor_bool (Tensor [] 5 [[True, True, True, True, True]]) = Inl RuntimeError \<and>
   check tensor_bool (support demo_batched) demo_value = Inl RuntimeError"
proof -
  have w: "trailing_width demo_value = Some (sum_list (p_ndims demo_batched))"
    by (simp add: demo_value_def demo_batched_def)
  have n: "p_ndims demo_batched = p_ndims demo"
    by (simp add: demo_batched_def demo_def)
  have a: "d_support (factors demo_batched ! 0)
             (factor_slice (p_ndims demo_batched) 0 demo_value) =
           Inr (Tensor [] 5 [[True, True, True, True, True]])"
    unfolding n demo_slices
    by (simp add: demo_batched_def batched_factor_def unflatten_def)
  have b: "d_support (factors demo_batched ! Suc 0)
             (factor_slice (p_ndims demo_batched) (Suc 0) demo_value) =
           Inr (Tensor [] 5 [[True, True, True, True, True]])"
    unfolding n demo_slices
    by (simp add: demo_batched_def batched_factor_def unflatten_def)
  have t: "tensor_bool (Tensor [] 5 [[True, True, True, True, True]]) = Inl RuntimeError"
    by simp
  have c: "check tensor_bool (support demo_batched) demo_value = Inl RuntimeError"
    by (simp add: check_def support_def iterate_parts_def demo_batched_def demo_value_def
        batched_factor_def unflatten_def)
  from demo_batched_init w a b t c show ?thesis by blast
qed

text \<open>
  Concatenating the slices of the layout along the trailing axis gives the value back.
\<close>

lemma map2_append_same:
  "map2 (@) (map f rs) (map g rs) = map (\<lambda>r. f r @ g r) rs"
  by (induction rs) simp_all

lemma cat_onto_factor_slices:
  assumes "list_all (\<lambda>r. length r = w) rs" and "w = a + sum_list ns"
  shows "cat_onto (Tensor l a (map (take a) rs))
           (factor_slices ns (Tensor l (w - a) (map (drop a) rs))) = Inr (Tensor l w rs)"
  using assms
proof (induction ns arbitrary: a)
  case Nil
  then have "map (take a) rs = rs"
    by (simp add: list_all_iff map_idI)
  with Nil show ?case by (simp add: factor_slices_Nil)
next
  case (Cons n ns)
  have w: "w = (a + n) + sum_list ns" using Cons.prems(2) by simp
  have m: "min n (w - a) = n" using Cons.prems(2) by simp
  have t: "map2 (@) (map (take a) rs) (map (take n) (map (drop a) rs)) = map (take (a + n)) rs"
    by (simp add: map2_append_same take_add o_def)
  have d: "map (drop n) (map (drop a) rs) = map (drop (a + n)) rs"
    by (simp add: add.commute)
  have s: "w - a - n = w - (a + n)" by simp
  show ?case
    using Cons.IH [OF Cons.prems(1) w]
    by (simp add: factor_slices_Cons m t d s del: map_map)
qed

lemma cat_factor_slices:
  assumes "list_all (\<lambda>r. length r = w) rs" and "w = sum_list ns" and "ns \<noteq> []"
  shows "cat (factor_slices ns (Tensor l w rs)) = Inr (Tensor l w rs)"
proof -
  from assms(3) obtain n ns' where ns: "ns = n # ns'" by (cases ns) auto
  have w: "w = n + sum_list ns'" using assms(2) ns by simp
  have m: "min n w = n" using w by simp
  show ?thesis
    unfolding ns using cat_onto_factor_slices [OF assms(1) w, of l]
    by (simp add: factor_slices_Cons m)
qed

text \<open>
  Claim C2. For a constructed distribution and a well-formed value whose trailing
  dimension is the summed event width, the generator returned by
  \<^verbatim>\<open>partition_dimensions\<close>, run to exhaustion, yields one slice per factor, in factor
  order; slice \<open>i\<close> is the contiguous slice of the layout and has the cached width of
  factor \<open>i\<close>; and the concatenation of the slices along the trailing axis is the value.
\<close>

theorem partition_round_trip:
  assumes init: "Factorised_init fs va = Inr d"
    and wf: "wf_tensor v"
    and v: "trailing_width v = Some (sum_list (p_ndims d))"
  shows "\<exists>ps. drain (partition_dimensions d v) = Inr ps \<and>
            length ps = length (factors d) \<and>
            (\<forall>i<length ps. ps ! i = factor_slice (p_ndims d) i v \<and>
                            trailing_width (ps ! i) = Some (p_ndims d ! i)) \<and>
            cat ps = Inr v"
proof -
  note r = Factorised_init_Inr [OF init]
  from v obtain l rs where t: "v = Tensor l (sum_list (p_ndims d)) rs" by (cases v) auto
  have len: "length (p_ndims d) = length (factors d)" using r(3,6) by simp
  have ne: "p_ndims d \<noteq> []" using r(1,6) by simp
  let ?ps = "factor_slices (p_ndims d) v"
  have 1: "drain (partition_dimensions d v) = Inr ?ps"
    by (simp add: partition_dimensions_def iterate_parts_def t drain_AtLoop)
  have 2: "length ?ps = length (factors d)"
    by (simp add: length_factor_slices len)
  have 3: "\<forall>i<length ?ps. ?ps ! i = factor_slice (p_ndims d) i v \<and>
                            trailing_width (?ps ! i) = Some (p_ndims d ! i)"
    using factor_slice_width [OF v order_refl]
    by (simp add: length_factor_slices nth_factor_slices)
  have rows: "list_all (\<lambda>r. length r = sum_list (p_ndims d)) rs"
    using wf t by simp
  have 4: "cat ?ps = Inr v"
    unfolding t by (rule cat_factor_slices [OF rows refl ne])
  from 1 2 3 4 show ?thesis by blast
qed

lemma demo_value_wf: "wf_tensor demo_value"
  by (simp add: demo_value_def)

theorem partition_round_trip_witness:
  "Factorised_init demo_factors None = Inr demo \<and> wf_tensor demo_value \<and>
   trailing_width demo_value = Some (sum_list (p_ndims demo)) \<and>
   drain (partition_dimensions demo demo_value) =
     Inr [Tensor [5] 3 [[1, 2, 3], [7, 6, 5], [0, 0, 0], [1, 0, 1], [2, 2, 2]],
          Tensor [5] 4 [[4, 5, 6, 7], [4, 3, 2, 1], [0, 0, 0, 0], [0, 1, 0, 1], [1, 1, 1, 1]]] \<and>
   cat [Tensor [5] 3 [[1, 2, 3], [7, 6, 5], [0, 0, 0], [1, 0, 1], [2, 2, 2]],
        Tensor [5] 4 [[4, 5, 6, 7], [4, 3, 2, 1], [0, 0, 0, 0], [0, 1, 0, 1], [1, 1, 1, 1]]] =
     Inr demo_value"
proof -
  from partition_round_trip [OF demo_init demo_value_wf demo_value_width]
  obtain ps where ps: "drain (partition_dimensions demo demo_value) = Inr ps"
    "length ps = length (factors demo)"
    "\<forall>i<length ps. ps ! i = factor_slice (p_ndims demo) i demo_value \<and>
                     trailing_width (ps ! i) = Some (p_ndims demo ! i)"
    "cat ps = Inr demo_value"
    by blast
  have l: "length ps = 2" using ps(2) by (simp add: demo_def demo_factors_def)
  have "ps ! 0 = factor_slice (p_ndims demo) 0 demo_value"
       "ps ! Suc 0 = factor_slice (p_ndims demo) (Suc 0) demo_value"
    using ps(3) l by simp_all
  then have "ps = [factor_slice (p_ndims demo) 0 demo_value,
                   factor_slice (p_ndims demo) (Suc 0) demo_value]"
    using l by (intro nth_equalityI) (auto dest!: less_two_cases)
  then have "ps = [Tensor [5] 3 [[1, 2, 3], [7, 6, 5], [0, 0, 0], [1, 0, 1], [2, 2, 2]],
          Tensor [5] 4 [[4, 5, 6, 7], [4, 3, 2, 1], [0, 0, 0, 0], [0, 1, 0, 1], [1, 1, 1, 1]]]"
    by (simp only: demo_slices)
  with ps(1,4) demo_init demo_value_wf demo_value_width show ?thesis by simp
qed












text \<open>
  The marginal: the selected factors, in the order of the indices, given to the
  constructor.
\<close>

lemma Factorised_init_accepts:
  assumes "fs \<noteq> []" and "list_all (\<lambda>f. d_event_shape f \<noteq> []) fs"
  shows "\<exists>d. Factorised_init fs va = Inr d"
proof -
  from assms(1) obtain f0 fs' where fs: "fs = f0 # fs'" by (cases fs) auto
  show ?thesis
    unfolding Factorised_init_def fs
    using sum_event_shape0_nonempty [OF assms(2), of 0] by (simp add: fs)
qed

lemma select_factors_in_range:
  assumes "\<forall>i\<in>set idx. - int (length xs) \<le> i \<and> i < int (length xs)"
  shows "select_factors xs idx =
           Inr (map (\<lambda>i. xs ! nat (if i < 0 then int (length xs) + i else i)) idx)"
  using assms
proof (induction idx)
  case Nil
  show ?case by simp
next
  case (Cons i idx)
  then have "getitem xs i = Inr (xs ! nat (if i < 0 then int (length xs) + i else i))"
    by (auto simp: getitem_def)
  with Cons show ?case by simp
qed

lemma marginal_in_range:
  assumes init: "Factorised_init fs va = Inr d"
    and ne: "idx \<noteq> []"
    and rng: "\<forall>i\<in>set idx. - int (length fs) \<le> i \<and> i < int (length fs)"
  shows "\<exists>m. Factorised_init
               (map (\<lambda>i. fs ! nat (if i < 0 then int (length fs) + i else i)) idx)
               (Some (read_validate_args dva d)) = Inr m \<and>
             select_factors (factors d) idx =
               Inr (map (\<lambda>i. fs ! nat (if i < 0 then int (length fs) + i else i)) idx) \<and>
             factors m = map (\<lambda>i. fs ! nat (if i < 0 then int (length fs) + i else i)) idx \<and>
             p_ndims m = map (\<lambda>i. p_ndims d ! nat (if i < 0 then int (length fs) + i else i)) idx \<and>
             event_shape m = [sum_list (p_ndims m)] \<and>
             validate_args m = Some (read_validate_args dva d)"
proof -
  note r = Factorised_init_Inr [OF init]
  let ?pos = "\<lambda>i. nat (if i < 0 then int (length fs) + i else i)"
  let ?sel = "map (\<lambda>i. fs ! ?pos i) idx"
  have pos: "?pos i < length fs" if "i \<in> set idx" for i
    using rng that by auto
  have sel: "select_factors (factors d) idx = Inr ?sel"
    unfolding r(3) using rng by (rule select_factors_in_range)
  have "?sel \<noteq> []" using ne by simp
  moreover have "list_all (\<lambda>f. d_event_shape f \<noteq> []) ?sel"
    using r(2) pos by (auto simp: list_all_iff)
  ultimately obtain m where m: "Factorised_init ?sel (Some (read_validate_args dva d)) = Inr m"
    using Factorised_init_accepts by blast
  note rm = Factorised_init_Inr [OF m]
  have "p_ndims m = map (\<lambda>i. p_ndims d ! ?pos i) idx"
    unfolding rm(6) r(6) using pos by simp
  moreover have "event_shape m = [sum_list (p_ndims m)]"
    unfolding rm(5) rm(6) ..
  ultimately show ?thesis using m sel rm(3,7) by blast
qed

text \<open>
  Claim C9, amended. In a store \<open>h\<close>, for a receiver at the address \<open>self\<close> that the
  constructor built from the factors \<open>fs\<close>, and a sequence of indices that is not empty
  and whose entries are in range for a Python list (\<open>- length \<le> i < length\<close>, a negative
  index counting from the back): \<^verbatim>\<open>marginal\<close> returns the address of a new instance,
  which is not the receiver; the factor list of the new instance is exactly the selected
  factors of the receiver in the order of the indices (with repetitions), its cached
  widths are the selected cached widths of the receiver, its event shape is their sum, and
  its validation flag is the flag read from the receiver. The store after the call has
  the new instance as its only addition: every instance that was in the store, the
  receiver among them, is as it was, so the receiver's factor list and cached widths are
  unchanged.
\<close>

theorem marginal_selects:
  assumes recv: "self < length h"
    and init: "Factorised_init fs va = Inr (h ! self)"
    and ne: "idx \<noteq> []"
    and rng: "\<forall>i\<in>set idx. - int (length fs) \<le> i \<and> i < int (length fs)"
  shows "\<exists>a h'. marginal_call dva h self idx = (Inr a, h') \<and>
           a = length h \<and> a \<noteq> self \<and> length h' = Suc (length h) \<and>
           marginal dva (h ! self) idx = Inr (h' ! a) \<and>
           factors (h' ! a) =
             map (\<lambda>i. fs ! nat (if i < 0 then int (length fs) + i else i)) idx \<and>
           p_ndims (h' ! a) =
             map (\<lambda>i. p_ndims (h ! self) ! nat (if i < 0 then int (length fs) + i else i)) idx \<and>
           event_shape (h' ! a) = [sum_list (p_ndims (h' ! a))] \<and>
           validate_args (h' ! a) = Some (read_validate_args dva (h ! self)) \<and>
           (\<forall>b<length h. h' ! b = h ! b) \<and>
           factors (h' ! self) = fs \<and> p_ndims (h' ! self) = p_ndims (h ! self)"
proof -
  note r = Factorised_init_Inr [OF init]
  from marginal_in_range [OF init ne rng, of dva] obtain m where
    m: "Factorised_init
          (map (\<lambda>i. fs ! nat (if i < 0 then int (length fs) + i else i)) idx)
          (Some (read_validate_args dva (h ! self))) = Inr m"
       "select_factors (factors (h ! self)) idx =
          Inr (map (\<lambda>i. fs ! nat (if i < 0 then int (length fs) + i else i)) idx)"
       "factors m = map (\<lambda>i. fs ! nat (if i < 0 then int (length fs) + i else i)) idx"
       "p_ndims m =
          map (\<lambda>i. p_ndims (h ! self) ! nat (if i < 0 then int (length fs) + i else i)) idx"
       "event_shape m = [sum_list (p_ndims m)]"
       "validate_args m = Some (read_validate_args dva (h ! self))"
    by blast
  let ?h' = "h @ [m]"
  have call: "marginal_call dva h self idx = (Inr (length h), ?h')"
    using recv by (simp add: marginal_call_def new_Factorised_def m(1,2))
  have pure: "marginal dva (h ! self) idx = Inr (?h' ! length h)"
    by (simp add: marginal_def m(1,2))
  have new: "?h' ! length h = m" by simp
  have old: "\<forall>b<length h. ?h' ! b = h ! b" by (simp add: nth_append)
  have self': "?h' ! self = h ! self" using recv by (simp add: nth_append)
  have "length h \<noteq> self" using recv by simp
  moreover have "length ?h' = Suc (length h)" by simp
  moreover have "factors (?h' ! self) = fs" unfolding self' by (rule r(3))
  moreover have "p_ndims (?h' ! self) = p_ndims (h ! self)" unfolding self' ..
  moreover have "factors (?h' ! length h) =
      map (\<lambda>i. fs ! nat (if i < 0 then int (length fs) + i else i)) idx"
    unfolding new by (rule m(3))
  moreover have "p_ndims (?h' ! length h) =
      map (\<lambda>i. p_ndims (h ! self) ! nat (if i < 0 then int (length fs) + i else i)) idx"
    unfolding new by (rule m(4))
  moreover have "event_shape (?h' ! length h) = [sum_list (p_ndims (?h' ! length h))]"
    unfolding new by (rule m(5))
  moreover have "validate_args (?h' ! length h) = Some (read_validate_args dva (h ! self))"
    unfolding new by (rule m(6))
  ultimately show ?thesis
    using call pure old by blast
qed

text \<open>
  Claim C9, as stated, fails at the empty index sequence, every entry of which is in
  range: the constructor is then called with no factor and raises IndexError, and no
  instance is added to the store.
\<close>

theorem marginal_empty_selection_counterexample:
  "Factorised_init demo_factors None = Inr demo \<and>
   list_all (\<lambda>i. - int (length demo_factors) \<le> i \<and> i < int (length demo_factors)) [] \<and>
   marginal True demo [] = Inl IndexError \<and>
   marginal_call True [demo] 0 [] = (Inl IndexError, [demo])"
proof -
  have "marginal True demo [] = Inl IndexError"
    by (simp add: marginal_def Factorised_init_def)
  moreover have "marginal_call True [demo] 0 [] = (Inl IndexError, [demo])"
    by (simp add: marginal_call_def new_Factorised_def Factorised_init_def)
  ultimately show ?thesis using demo_init by simp
qed

theorem marginal_selects_witness:
  "Factorised_init demo_factors None = Inr ([demo] ! 0) \<and>
   marginal_call True [demo] 0 [1, 0, - 1] = (Inr 1, [demo, demo_marginal]) \<and>
   factors ([demo, demo_marginal] ! 1) =
     [demo_factors ! 1, demo_factors ! 0, demo_factors ! 1] \<and>
   p_ndims ([demo, demo_marginal] ! 1) = [4, 3, 4] \<and>
   event_shape ([demo, demo_marginal] ! 1) = [11] \<and>
   validate_args ([demo, demo_marginal] ! 1) = Some True \<and>
   factors ([demo, demo_marginal] ! 0) = demo_factors \<and>
   p_ndims ([demo, demo_marginal] ! 0) = p_ndims ([demo] ! 0)"
proof -
  have recv: "0 < length [demo]" by simp
  have init: "Factorised_init demo_factors None = Inr ([demo] ! 0)"
    using demo_init by simp
  have ne: "[1, 0, - 1 :: int] \<noteq> []" by simp
  have rng: "\<forall>i\<in>set [1, 0, - 1 :: int].
      - int (length demo_factors) \<le> i \<and> i < int (length demo_factors)"
    by (simp add: demo_factors_nth(3))
  have call: "marginal_call True [demo] 0 [1, 0, - 1] = (Inr 1, [demo, demo_marginal])"
    by (simp add: marginal_call_def new_Factorised_def demo_def demo_marginal_def
        demo_factors_def getitem_def Factorised_init_def demo_factor_def
        read_validate_args_def)
  from marginal_selects [OF recv init ne rng, of True]
  obtain a h' where r: "marginal_call True [demo] 0 [1, 0, - 1] = (Inr a, h')"
    "factors (h' ! 0) = demo_factors" "p_ndims (h' ! 0) = p_ndims ([demo] ! 0)"
    "event_shape (h' ! a) = [sum_list (p_ndims (h' ! a))]"
    by blast
  from r(1) call have eq: "a = 1" "h' = [demo, demo_marginal]" by simp_all
  have sel: "factors ([demo, demo_marginal] ! 1) =
      [demo_factors ! 1, demo_factors ! 0, demo_factors ! 1]"
    "p_ndims ([demo, demo_marginal] ! 1) = [4, 3, 4]"
    "validate_args ([demo, demo_marginal] ! 1) = Some True"
    by (simp_all add: demo_marginal_def demo_factors_def)
  from r(4) have "event_shape ([demo, demo_marginal] ! 1) = [11]"
    unfolding eq sel(2) by simp
  with init call sel r(2,3) show ?thesis unfolding eq by blast
qed














text \<open>
  Sampling: the draws of the factors, joined along the trailing axis, and the layout
  that takes the joined sample apart again.
\<close>

lemma map2_append_rows:
  assumes "length rs = length ru" and "list_all (\<lambda>r. length r = a) rs"
  shows "map (take a) (map2 (@) rs ru) = rs" and "map (drop a) (map2 (@) rs ru) = ru"
    and "length (map2 (@) rs ru) = length rs"
  using assms by (induction rs ru rule: list_induct2) simp_all

lemma map2_append_lengths:
  assumes "length rs = length ru" and "list_all (\<lambda>r. length r = a) rs"
    and "list_all (\<lambda>r. length r = b) ru"
  shows "list_all (\<lambda>r. length r = a + b) (map2 (@) rs ru)"
  using assms by (induction rs ru rule: list_induct2) simp_all

lemma cat_onto_slices:
  assumes "length rs = N" and "list_all (\<lambda>r. length r = a) rs"
    and "list_all2 (\<lambda>w t. \<exists>ru. t = Tensor L w ru \<and> length ru = N \<and>
                              list_all (\<lambda>r. length r = w) ru) ws ts"
  shows "\<exists>R. cat_onto (Tensor L a rs) ts = Inr (Tensor L (a + sum_list ws) R) \<and>
             length R = N \<and> list_all (\<lambda>r. length r = a + sum_list ws) R \<and>
             map (take a) R = rs \<and>
             factor_slices ws (Tensor L (sum_list ws) (map (drop a) R)) = ts"
  using assms
proof (induction ts arbitrary: ws a rs)
  case Nil
  then have ws: "ws = []" by simp
  have "map (take a) rs = rs" using Nil.prems(2) by (simp add: list_all_iff map_idI)
  with Nil.prems show ?case by (simp add: ws factor_slices_Nil)
next
  case (Cons u us)
  from Cons.prems(3) obtain b ws' where ws: "ws = b # ws'"
    and u: "\<exists>ru. u = Tensor L b ru \<and> length ru = N \<and> list_all (\<lambda>r. length r = b) ru"
    and rest: "list_all2 (\<lambda>w t. \<exists>ru. t = Tensor L w ru \<and> length ru = N \<and>
                              list_all (\<lambda>r. length r = w) ru) ws' us"
    by (auto simp: list_all2_Cons2)
  from u obtain ru where ru: "u = Tensor L b ru" "length ru = N" "list_all (\<lambda>r. length r = b) ru"
    by blast
  let ?rs2 = "map2 (@) rs ru"
  have eq: "length rs = length ru" using Cons.prems(1) ru(2) by simp
  note m = map2_append_rows [OF eq Cons.prems(2)]
  have l2: "length ?rs2 = N" using m(3) Cons.prems(1) by simp
  have r2: "list_all (\<lambda>r. length r = a + b) ?rs2"
    by (rule map2_append_lengths [OF eq Cons.prems(2) ru(3)])
  from Cons.IH [OF l2 r2 rest] obtain R where
    R: "cat_onto (Tensor L (a + b) ?rs2) us = Inr (Tensor L (a + b + sum_list ws') R)"
       "length R = N" "list_all (\<lambda>r. length r = a + b + sum_list ws') R"
       "map (take (a + b)) R = ?rs2"
       "factor_slices ws' (Tensor L (sum_list ws') (map (drop (a + b)) R)) = us"
    by blast
  have 1: "cat_onto (Tensor L a rs) (u # us) = Inr (Tensor L (a + sum_list ws) R)"
    using R(1) by (simp add: ru(1) ws add.assoc)
  have 3: "list_all (\<lambda>r. length r = a + sum_list ws) R"
    using R(3) by (simp add: ws add.assoc)
  have "map (take a) R = map (take a) (map (take (a + b)) R)"
    by simp
  also have "\<dots> = rs" unfolding R(4) by (rule m(1))
  finally have 4: "map (take a) R = rs" .
  have "map (take b) (map (drop a) R) = map (drop a) (map (take (a + b)) R)"
    by (simp add: drop_take)
  also have "\<dots> = ru" unfolding R(4) by (rule m(2))
  finally have tb: "map (take b) (map (drop a) R) = ru" .
  have db: "map (drop b) (map (drop a) R) = map (drop (a + b)) R"
    by (simp add: add.commute)
  have 5: "factor_slices ws (Tensor L (sum_list ws) (map (drop a) R)) = u # us"
    unfolding ws by (simp add: factor_slices_Cons tb db R(5) ru(1) del: map_map)
  from 1 R(2) 3 4 5 show ?case by blast
qed

lemma cat_slices:
  assumes "list_all2 (\<lambda>w t. \<exists>ru. t = Tensor L w ru \<and> length ru = N \<and>
                              list_all (\<lambda>r. length r = w) ru) ws ts"
    and "ts \<noteq> []"
  shows "\<exists>R. cat ts = Inr (Tensor L (sum_list ws) R) \<and> length R = N \<and>
             list_all (\<lambda>r. length r = sum_list ws) R \<and>
             factor_slices ws (Tensor L (sum_list ws) R) = ts"
proof -
  from assms obtain t0 ts' where ts: "ts = t0 # ts'" by (cases ts) auto
  with assms(1) obtain a ws' r0 where ws: "ws = a # ws'"
    and t0: "t0 = Tensor L a r0" "length r0 = N" "list_all (\<lambda>r. length r = a) r0"
    and rest: "list_all2 (\<lambda>w t. \<exists>ru. t = Tensor L w ru \<and> length ru = N \<and>
                              list_all (\<lambda>r. length r = w) ru) ws' ts'"
    by (auto simp: list_all2_Cons2)
  from cat_onto_slices [OF t0(2,3) rest] obtain R where
    R: "cat_onto (Tensor L a r0) ts' = Inr (Tensor L (a + sum_list ws') R)"
       "length R = N" "list_all (\<lambda>r. length r = a + sum_list ws') R"
       "map (take a) R = r0"
       "factor_slices ws' (Tensor L (sum_list ws') (map (drop a) R)) = ts'"
    by blast
  have "cat ts = Inr (Tensor L (sum_list ws) R)"
    using R(1) by (simp add: ts t0(1) ws)
  moreover have "factor_slices ws (Tensor L (sum_list ws) R) = ts"
    by (simp add: ws ts factor_slices_Cons R(4,5) t0(1))
  ultimately show ?thesis using R(2,3) by (auto simp: ws)
qed

lemma rsample_factors_contract:
  assumes "\<forall>f\<in>set fs. \<forall>s. \<exists>t s'. d_rsample f S s = (Inr t, s') \<and> P f t"
  shows "\<exists>ts s'. rsample_factors S fs s = (Inr ts, s') \<and>
           list_all2 (\<lambda>f t. P f t \<and> (\<exists>s0 s1. d_rsample f S s0 = (Inr t, s1))) fs ts"
  using assms
proof (induction fs arbitrary: s)
  case Nil
  show ?case by simp
next
  case (Cons f fs)
  from Cons.prems obtain t s1 where t: "d_rsample f S s = (Inr t, s1)" "P f t"
    by (meson list.set_intros(1))
  from Cons.prems have "\<forall>f\<in>set fs. \<forall>s. \<exists>t s'. d_rsample f S s = (Inr t, s') \<and> P f t"
    by simp
  from Cons.IH [OF this, of s1] obtain ts s2 where
    ts: "rsample_factors S fs s1 = (Inr ts, s2)"
        "list_all2 (\<lambda>f t. P f t \<and> (\<exists>s0 s1. d_rsample f S s0 = (Inr t, s1))) fs ts"
    by blast
  have "rsample_factors S (f # fs) s = (Inr (t # ts), s2)"
    by (simp add: t(1) ts(1))
  moreover have "list_all2 (\<lambda>f t. P f t \<and> (\<exists>s0 s1. d_rsample f S s0 = (Inr t, s1)))
                   (f # fs) (t # ts)"
    using t ts(2) by auto
  ultimately show ?case by blast
qed

lemma tensor_of_shape:
  assumes "wf_tensor t" and "shape t = L @ [w]"
  shows "\<exists>ru. t = Tensor L w ru \<and> length ru = prod_list L \<and> list_all (\<lambda>r. length r = w) ru"
  using assms by (cases t) auto

text \<open>
  Claim C8, amended. For a constructed distribution whose factors all have the batch
  shape of the distribution and a one-dimensional event shape, and whose factors' samplers
  return, from every generator state, a well-formed tensor of shape sample shape + batch
  shape + event shape: \<^verbatim>\<open>rsample\<close> draws once from every factor, in factor order,
  each draw continuing from the generator state the previous one left; it returns the
  concatenation of the draws along the trailing axis, a well-formed tensor of shape
  sample shape + batch shape + event shape of the distribution; and partitioning the
  result with the cached widths gives the draws back, each with its own width.
\<close>

theorem rsample_concatenates:
  assumes init: "Factorised_init fs va = Inr d"
    and batch: "\<forall>f\<in>set fs. d_batch_shape f = batch_shape d"
    and vec: "\<forall>f\<in>set fs. length (d_event_shape f) = 1"
    and draw: "\<forall>f\<in>set fs. \<forall>s. \<exists>t s'. d_rsample f S s = (Inr t, s') \<and> wf_tensor t \<and>
                  shape t = S @ d_batch_shape f @ d_event_shape f"
  shows "\<exists>ts t s'. rsample_factors S fs s = (Inr ts, s') \<and> length ts = length fs \<and>
           (\<forall>i<length fs. \<exists>s0 s1. d_rsample (fs ! i) S s0 = (Inr (ts ! i), s1)) \<and>
           cat ts = Inr t \<and> rsample d S s = (Inr t, s') \<and> wf_tensor t \<and>
           shape t = S @ batch_shape d @ event_shape d \<and>
           drain (partition_dimensions d t) = Inr ts"
proof -
  note r = Factorised_init_Inr [OF init]
  let ?L = "S @ batch_shape d"
  let ?P = "\<lambda>f t. wf_tensor t \<and> shape t = S @ d_batch_shape f @ d_event_shape f"
  from rsample_factors_contract [of fs S ?P s, OF draw] obtain ts s' where
    ts: "rsample_factors S fs s = (Inr ts, s')"
        "list_all2 (\<lambda>f t. ?P f t \<and> (\<exists>s0 s1. d_rsample f S s0 = (Inr t, s1))) fs ts"
    by blast
  have len: "length ts = length fs" using ts(2) by (simp add: list_all2_lengthD)
  have each: "\<forall>i<length fs. \<exists>s0 s1. d_rsample (fs ! i) S s0 = (Inr (ts ! i), s1)"
    using ts(2) by (simp add: list_all2_conv_all_nth)
  have ne: "ts \<noteq> []" using len r(1) by auto
  have "list_all2 (\<lambda>w t. \<exists>ru. t = Tensor ?L w ru \<and> length ru = prod_list ?L \<and>
                              list_all (\<lambda>r. length r = w) ru) (p_ndims d) ts"
    unfolding list_all2_conv_all_nth
  proof (intro conjI allI impI)
    show "length (p_ndims d) = length ts" using len r(6) by simp
  next
    fix i assume "i < length (p_ndims d)"
    then have i: "i < length fs" using r(6) by simp
    then have mem: "fs ! i \<in> set fs" by simp
    from vec mem obtain w where w: "d_event_shape (fs ! i) = [w]"
      by (cases "d_event_shape (fs ! i)") auto
    have nd: "p_ndims d ! i = w" using r(6) i w by simp
    from ts(2) i have "wf_tensor (ts ! i)"
      and "shape (ts ! i) = S @ d_batch_shape (fs ! i) @ d_event_shape (fs ! i)"
      by (simp_all add: list_all2_conv_all_nth)
    then have "shape (ts ! i) = ?L @ [w]" using batch mem w by simp
    with \<open>wf_tensor (ts ! i)\<close> show "\<exists>ru. ts ! i = Tensor ?L (p_ndims d ! i) ru \<and>
        length ru = prod_list ?L \<and> list_all (\<lambda>r. length r = p_ndims d ! i) ru"
      unfolding nd by (rule tensor_of_shape)
  qed
  from cat_slices [OF this ne] obtain R where
    R: "cat ts = Inr (Tensor ?L (sum_list (p_ndims d)) R)" "length R = prod_list ?L"
       "list_all (\<lambda>r. length r = sum_list (p_ndims d)) R"
       "factor_slices (p_ndims d) (Tensor ?L (sum_list (p_ndims d)) R) = ts"
    by blast
  let ?t = "Tensor ?L (sum_list (p_ndims d)) R"
  have 1: "rsample d S s = (Inr ?t, s')"
    by (simp add: rsample_def r(3) ts(1) R(1))
  have 2: "wf_tensor ?t" using R(2,3) by simp
  have 3: "shape ?t = S @ batch_shape d @ event_shape d"
    using r(5,6) by simp
  have 4: "drain (partition_dimensions d ?t) = Inr ts"
    by (simp add: partition_dimensions_def iterate_parts_def drain_AtLoop R(4))
  from ts(1) len each R(1) 1 2 3 4 show ?thesis by blast
qed

lemma demo_matrix_init: "Factorised_init [demo_factor [] [2, 3]] None = Inr demo_matrix"
  by (simp add: Factorised_init_def demo_matrix_def demo_factor_def)

lemma demo_mixed_init:
  "Factorised_init [demo_factor [5] [3], demo_factor [2] [4]] None = Inr demo_mixed"
  by (simp add: Factorised_init_def demo_mixed_def demo_factor_def)

text \<open>
  Claim C8, as stated, fails. A single factor with event shape \<open>(2, 3)\<close> is accepted by
  the constructor, which records the event shape \<open>(2)\<close>, while a sample has shape
  \<open>(2, 3)\<close>; and for two factors with batch shapes \<open>(5)\<close> and \<open>(2)\<close>, which the
  constructor accepts as well, the concatenation raises.
\<close>

theorem rsample_shape_counterexample:
  "Factorised_init [demo_factor [] [2, 3]] None = Inr demo_matrix \<and>
   rsample demo_matrix [] 0 = (Inr (Tensor [2] 3 (replicate 2 (replicate 3 0))), 1) \<and>
   shape (Tensor [2] 3 (replicate 2 (replicate 3 (0::int)))) = [2, 3] \<and>
   [] @ batch_shape demo_matrix @ event_shape demo_matrix = [2] \<and>
   shape (Tensor [2] 3 (replicate 2 (replicate 3 (0::int)))) \<noteq>
     [] @ batch_shape demo_matrix @ event_shape demo_matrix \<and>
   Factorised_init [demo_factor [5] [3], demo_factor [2] [4]] None = Inr demo_mixed \<and>
   rsample demo_mixed [] 0 = (Inl RuntimeError, 2)"
proof -
  have a: "rsample demo_matrix [] 0 = (Inr (Tensor [2] 3 (replicate 2 (replicate 3 0))), 1)"
    by (simp add: rsample_def demo_matrix_def demo_factor_def full_def)
  have b: "rsample demo_mixed [] 0 = (Inl RuntimeError, 2)"
    by (simp add: rsample_def demo_mixed_def demo_factor_def full_def)
  have c: "[] @ batch_shape demo_matrix @ event_shape demo_matrix = [2]"
    by (simp add: demo_matrix_def)
  from a b c demo_matrix_init demo_mixed_init show ?thesis by simp
qed

lemma demo_rsample:
  "rsample demo [2] 0 =
     (Inr (Tensor [2, 5] 7 (replicate 10 (replicate 3 0 @ replicate 4 1))), 2)"
  by (simp add: rsample_def demo_def demo_factors_def demo_factor_def full_def)

theorem rsample_concatenates_witness:
  "Factorised_init demo_factors None = Inr demo \<and>
   rsample demo [2] 0 =
     (Inr (Tensor [2, 5] 7 (replicate 10 (replicate 3 0 @ replicate 4 1))), 2) \<and>
   shape (Tensor [2, 5] 7 (replicate 10 (replicate 3 (0::int) @ replicate 4 1))) =
     [2] @ batch_shape demo @ event_shape demo \<and>
   [2] @ batch_shape demo @ event_shape demo = [2, 5, 7]"
proof -
  have batch: "\<forall>f\<in>set demo_factors. d_batch_shape f = batch_shape demo"
    by (simp add: demo_factors_def demo_factor_def demo_def)
  have vec: "\<forall>f\<in>set demo_factors. length (d_event_shape f) = 1"
    by (simp add: demo_factors_def demo_factor_def)
  have draw: "\<forall>f\<in>set demo_factors. \<forall>s. \<exists>t s'. d_rsample f [2] s = (Inr t, s') \<and> wf_tensor t \<and>
                  shape t = [2] @ d_batch_shape f @ d_event_shape f"
    by (simp add: demo_factors_def demo_factor_def full_def list_all_iff)
  from rsample_concatenates [OF demo_init batch vec draw, of 0]
  obtain t s' where "rsample demo [2] 0 = (Inr t, s')"
    and "shape t = [2] @ batch_shape demo @ event_shape demo"
    by blast
  with demo_rsample
  have "shape (Tensor [2, 5] 7 (replicate 10 (replicate 3 (0::int) @ replicate 4 1))) =
     [2] @ batch_shape demo @ event_shape demo"
    by simp
  moreover have "[2] @ batch_shape demo @ event_shape demo = [2, 5, 7]"
    by (simp add: demo_def)
  ultimately show ?thesis using demo_init demo_rsample by simp
qed

end
